theory Spec2Isabelle
  imports Main "HOL-Library.AList" "HOL-Library.Sublist"
begin

section \<open>JavaScript values\<close>

text \<open>
  The services exchange plain JavaScript values: query conditions, rows and cached
  results.  Numbers are restricted to integers and strings to byte strings.  An object
  carries its properties in the order in which \<open>Object.keys\<close> and
  \<open>JSON.stringify\<close> enumerate them; for property names that are not array indices
  (all column names of the schema) this is the order of insertion.
\<close>

datatype jsval =
    JUndefined
  | JNull
  | JBool bool
  | JNum int
  | JStr string
  | JArr "jsval list"
  | JObj "(string \<times> jsval) list"

datatype error =
    TypeError string
  | Error string


text \<open>\<open>typeof part === 'object'\<close>: true of objects, arrays and \<open>null\<close>.\<close>

fun typeof_object :: "jsval \<Rightarrow> bool" where
  "typeof_object JNull = True"
| "typeof_object (JArr xs) = True"
| "typeof_object (JObj ps) = True"
| "typeof_object v = False"

subsection \<open>Number and string rendering\<close>

definition digit_char :: "nat \<Rightarrow> char" where
  "digit_char d = char_of (of_char (CHR ''0'') + d)"

fun nat_to_string :: "nat \<Rightarrow> string" where
  "nat_to_string n =
     (if n < 10 then [digit_char n] else nat_to_string (n div 10) @ [digit_char (n mod 10)])"

definition int_to_string :: "int \<Rightarrow> string" where
  "int_to_string i = (if i < 0 then CHR ''-'' # nat_to_string (nat (- i)) else nat_to_string (nat i))"

definition hex_char :: "nat \<Rightarrow> char" where
  "hex_char d = (if d < 10 then digit_char d else char_of (of_char (CHR ''a'') + (d - 10)))"

text \<open>\<open>Array.prototype.join\<close> on strings.\<close>

fun join :: "string \<Rightarrow> string list \<Rightarrow> string" where
  "join sep [] = []"
| "join sep [x] = x"
| "join sep (x # y # ys) = x @ sep @ join sep (y # ys)"

text \<open>The JSON escape of one character inside a string literal.\<close>

definition json_escape :: "char \<Rightarrow> string" where
  "json_escape c =
     (if c = CHR 0x22 then [CHR 0x5C, CHR 0x22]
      else if c = CHR 0x5C then [CHR 0x5C, CHR 0x5C]
      else if c = CHR 0x08 then [CHR 0x5C, CHR ''b'']
      else if c = CHR 0x0C then [CHR 0x5C, CHR ''f'']
      else if c = CHR 0x0A then [CHR 0x5C, CHR ''n'']
      else if c = CHR 0x0D then [CHR 0x5C, CHR ''r'']
      else if c = CHR 0x09 then [CHR 0x5C, CHR ''t'']
      else if (of_char c :: nat) < 32
        then [CHR 0x5C, CHR ''u'', CHR ''0'', CHR ''0'',
              hex_char (of_char c div 16), hex_char (of_char c mod 16)]
      else [c])"

definition json_quote :: "string \<Rightarrow> string" where
  "json_quote s = CHR 0x22 # concat (map json_escape s) @ [CHR 0x22]"

text \<open>
  \<open>JSON.stringify\<close>.  The result \<open>None\<close> stands for \<open>undefined\<close>: an undefined
  array element is written \<open>null\<close>, an undefined property is left out.
\<close>

fun stringify :: "jsval \<Rightarrow> string option"
  and stringify_elems :: "jsval list \<Rightarrow> string list"
  and stringify_props :: "(string \<times> jsval) list \<Rightarrow> string list" where
  "stringify JUndefined = None"
| "stringify JNull = Some ''null''"
| "stringify (JBool b) = Some (if b then ''true'' else ''false'')"
| "stringify (JNum n) = Some (int_to_string n)"
| "stringify (JStr s) = Some (json_quote s)"
| "stringify (JArr xs) = Some (''['' @ join '','' (stringify_elems xs) @ '']'')"
| "stringify (JObj ps) = Some (''{'' @ join '','' (stringify_props ps) @ ''}'')"
| "stringify_elems [] = []"
| "stringify_elems (x # xs) =
     (case stringify x of None \<Rightarrow> ''null'' | Some s \<Rightarrow> s) # stringify_elems xs"
| "stringify_props [] = []"
| "stringify_props (p # ps) =
     (case stringify (snd p) of
        None \<Rightarrow> stringify_props ps
      | Some s \<Rightarrow> (json_quote (fst p) @ '':'' @ s) # stringify_props ps)"

text \<open>\<open>String(part)\<close> for the values that are not of type object.\<close>

fun to_String :: "jsval \<Rightarrow> string" where
  "to_String JUndefined = ''undefined''"
| "to_String JNull = ''null''"
| "to_String (JBool b) = (if b then ''true'' else ''false'')"
| "to_String (JNum n) = int_to_string n"
| "to_String (JStr s) = s"
| "to_String (JArr xs) =
     join '','' (map (\<lambda>x. if x = JNull \<or> x = JUndefined then [] else to_String x) xs)"
| "to_String (JObj ps) = ''[object Object]''"

text \<open>\<open>String.prototype.includes\<close>.\<close>

definition str_includes :: "string \<Rightarrow> string \<Rightarrow> bool" where
  "str_includes s pattern = sublist pattern s"

section \<open>CacheService: the in-memory cache with expiry\<close>

text \<open>
  \<open>cache\<close> and \<open>ttls\<close> are the two \<open>Map\<close>s of the service, in insertion order:
  \<open>Map.set\<close> overwrites an existing key in place and appends a new one
  (\<open>AList.update\<close>), \<open>Map.delete\<close> removes the key (\<open>AList.delete\<close>).
  \<open>Date.now()\<close> is the argument \<open>now\<close> of each operation, in milliseconds.
\<close>

record cache_service =
  cache :: "(string \<times> jsval) list"
  ttls :: "(string \<times> int) list"

definition defaultTtl :: int where
  "defaultTtl = 15 * 60 * 1000"

definition maxCacheSize :: nat where
  "maxCacheSize = 1000"

definition new_cache :: cache_service where
  "new_cache = \<lparr>cache = [], ttls = []\<rparr>"

definition part_string :: "jsval \<Rightarrow> string" where
  "part_string part =
     (if typeof_object part then (case stringify part of None \<Rightarrow> [] | Some s \<Rightarrow> s)
      else to_String part)"

definition generateKey :: "jsval list \<Rightarrow> string" where
  "generateKey parts = join '':'' (map part_string parts)"

definition cache_delete :: "string \<Rightarrow> cache_service \<Rightarrow> cache_service" where
  "cache_delete key c =
     c\<lparr>cache := AList.delete key (cache c), ttls := AList.delete key (ttls c)\<rparr>"

text \<open>
  \<open>evictOldest\<close>: \<open>Math.ceil(this.cache.size * 0.1)\<close> entries, taken from the front of
  the expiry-sorted entries of \<open>ttls\<close> (the sort is stable).  The product is a double;
  \<open>set\<close> calls \<open>evictOldest\<close> at size 1000 only, where it is exactly 100, the value
  of the integer ceiling written here.
\<close>

definition evictOldest :: "cache_service \<Rightarrow> cache_service" where
  "evictOldest c =
     (let entriesToRemove = (length (cache c) + 9) div 10;
          sortedEntries = take entriesToRemove (sort_key snd (ttls c))
      in fold (\<lambda>entry. cache_delete (fst entry)) sortedEntries c)"

definition cache_set :: "string \<Rightarrow> jsval \<Rightarrow> int \<Rightarrow> int \<Rightarrow> cache_service \<Rightarrow> cache_service" where
  "cache_set key val ttl now c =
     (let c1 = (if length (cache c) \<ge> maxCacheSize then evictOldest c else c);
          expiryTime = now + ttl
      in c1\<lparr>cache := AList.update key val (cache c1),
            ttls := AList.update key expiryTime (ttls c1)\<rparr>)"

text \<open>
  \<open>get\<close>: \<open>!expiryTime\<close> holds of a missing key and of the expiry time 0.  A key of
  \<open>ttls\<close> that \<open>cache\<close> does not hold reads as \<open>undefined\<close>.
\<close>

definition cache_get :: "string \<Rightarrow> int \<Rightarrow> cache_service \<Rightarrow> jsval \<times> cache_service" where
  "cache_get key now c =
     (case map_of (ttls c) key of
        None \<Rightarrow> (JNull, cache_delete key c)
      | Some expiryTime \<Rightarrow>
          if expiryTime = 0 \<or> now > expiryTime then (JNull, cache_delete key c)
          else (case map_of (cache c) key of None \<Rightarrow> (JUndefined, c) | Some v \<Rightarrow> (v, c)))"

definition cache_has :: "string \<Rightarrow> int \<Rightarrow> cache_service \<Rightarrow> bool \<times> cache_service" where
  "cache_has key now c =
     (case map_of (ttls c) key of
        None \<Rightarrow> (False, cache_delete key c)
      | Some expiryTime \<Rightarrow>
          if expiryTime = 0 \<or> now > expiryTime then (False, cache_delete key c)
          else (key \<in> fst ` set (cache c), c))"

definition cache_clear :: "cache_service \<Rightarrow> cache_service" where
  "cache_clear c = c\<lparr>cache := [], ttls := []\<rparr>"

text \<open>
  \<open>invalidatePattern\<close> walks the keys of \<open>cache\<close>; deleting the key under the cursor
  does not disturb the iteration of a \<open>Map\<close>.
\<close>

definition invalidatePattern :: "string \<Rightarrow> cache_service \<Rightarrow> nat \<times> cache_service" where
  "invalidatePattern pattern c =
     fold (\<lambda>key (removed, c').
             if str_includes key pattern then (removed + 1, cache_delete key c') else (removed, c'))
          (map fst (cache c)) (0, c)"

definition cleanup :: "int \<Rightarrow> cache_service \<Rightarrow> cache_service" where
  "cleanup now c =
     fold (\<lambda>entry c'. if now > snd entry then cache_delete (fst entry) c' else c') (ttls c) c"


subsection \<open>Sequences of cache operations\<close>

text \<open>
  The calls that reach the service, one constructor per public method, and the state
  after a sequence of them on a freshly constructed service.
\<close>

datatype cache_op =
    Set string jsval int int
  | Get string int
  | Has string int
  | Delete string
  | InvalidatePattern string
  | Cleanup int
  | Clear

fun apply_op :: "cache_op \<Rightarrow> cache_service \<Rightarrow> cache_service" where
  "apply_op (Set key val ttl now) c = cache_set key val ttl now c"
| "apply_op (Get key now) c = snd (cache_get key now c)"
| "apply_op (Has key now) c = snd (cache_has key now c)"
| "apply_op (Delete key) c = cache_delete key c"
| "apply_op (InvalidatePattern pattern) c = snd (invalidatePattern pattern c)"
| "apply_op (Cleanup now) c = cleanup now c"
| "apply_op Clear c = cache_clear c"

definition run_ops :: "cache_op list \<Rightarrow> cache_service" where
  "run_ops ops = fold apply_op ops new_cache"

text \<open>
  The two maps hold the same keys in the same order, each key once: \<open>set\<close>,
  \<open>delete\<close> and \<open>clear\<close> always touch both.
\<close>

definition cache_inv :: "cache_service \<Rightarrow> bool" where
  "cache_inv c \<longleftrightarrow> map fst (cache c) = map fst (ttls c) \<and> distinct (map fst (ttls c))"


section \<open>CachedDbService: cache-aside access to the database\<close>

text \<open>
  The \<open>Database\<close> class sends SQL to PostgreSQL.  The cache-aside layer never looks
  into its answers, so the database is a parameter here: a state \<open>'d\<close> and the five
  helper methods that \<open>CachedDbService\<close> calls and \<open>Database\<close> defines.  A call
  either fails with the error the query raised, leaving the database as it was, or
  returns its result (and the new state, for a write).  \<open>Database\<close> defines no
  \<open>count\<close>, \<open>create\<close> or \<open>batchUpsert\<close>: calling them raises a \<open>TypeError\<close>.
\<close>

record 'd db =
  db_findOne :: "string \<Rightarrow> jsval \<Rightarrow> 'd \<Rightarrow> error + jsval"
  db_findMany :: "string \<Rightarrow> jsval \<Rightarrow> jsval \<Rightarrow> 'd \<Rightarrow> error + jsval"
  db_upsert :: "string \<Rightarrow> jsval \<Rightarrow> jsval \<Rightarrow> 'd \<Rightarrow> error + (jsval \<times> 'd)"
  db_update :: "string \<Rightarrow> jsval \<Rightarrow> jsval \<Rightarrow> 'd \<Rightarrow> error + (jsval \<times> 'd)"
  db_delete :: "string \<Rightarrow> jsval \<Rightarrow> 'd \<Rightarrow> error + (jsval \<times> 'd)"

text \<open>
  The state of the two singletons behind \<open>CachedDbService\<close>.  \<open>db_calls\<close> is a ghost
  counter of the calls forwarded to a method of \<open>db\<close>.
\<close>

record 'd cached_db =
  cacheService :: cache_service
  store :: 'd
  db_calls :: nat

definition cacheTtls :: "(string \<times> int) list" where
  "cacheTtls =
     [(''records'', 10 * 60 * 1000),
      (''board_games'', 15 * 60 * 1000),
      (''books'', 15 * 60 * 1000),
      (''sync_status'', 30 * 1000),
      (''static'', 60 * 60 * 1000)]"

text \<open>\<open>this.cacheTtls[table] || this.cacheTtls.static\<close>\<close>

definition table_ttl :: "string \<Rightarrow> int" where
  "table_ttl table = (case map_of cacheTtls table of Some ttl \<Rightarrow> ttl | None \<Rightarrow> 60 * 60 * 1000)"

text \<open>A default parameter value replaces an argument that is \<open>undefined\<close>.\<close>

definition default_arg :: "jsval \<Rightarrow> jsval \<Rightarrow> jsval" where
  "default_arg d v = (if v = JUndefined then d else v)"

text \<open>
  The reads.  \<open>now\<close> is the time of the cache lookup, \<open>now'\<close> the time at which the
  answer of the database is stored.
\<close>

definition cached_findMany ::
  "'d db \<Rightarrow> string \<Rightarrow> jsval \<Rightarrow> jsval \<Rightarrow> int \<Rightarrow> int \<Rightarrow> 'd cached_db \<Rightarrow> (error + jsval) \<times> 'd cached_db" where
  "cached_findMany db table conditions orderBy now now' s =
     (let conds = default_arg (JObj []) conditions;
          order = default_arg JNull orderBy;
          cacheKey = generateKey [JStr ''findMany'', JStr table, conds, order];
          (cached, c1) = cache_get cacheKey now (cacheService s)
      in if cached \<noteq> JNull then (Inr cached, s\<lparr>cacheService := c1\<rparr>)
         else (case db_findMany db table conds order (store s) of
                 Inl e \<Rightarrow> (Inl e, s\<lparr>cacheService := c1, db_calls := db_calls s + 1\<rparr>)
               | Inr result \<Rightarrow>
                   (Inr result,
                    s\<lparr>cacheService := cache_set cacheKey result (table_ttl table) now' c1,
                      db_calls := db_calls s + 1\<rparr>)))"

definition cached_findOne ::
  "'d db \<Rightarrow> string \<Rightarrow> jsval \<Rightarrow> int \<Rightarrow> int \<Rightarrow> 'd cached_db \<Rightarrow> (error + jsval) \<times> 'd cached_db" where
  "cached_findOne db table conditions now now' s =
     (let conds = default_arg (JObj []) conditions;
          cacheKey = generateKey [JStr ''findOne'', JStr table, conds];
          (cached, c1) = cache_get cacheKey now (cacheService s)
      in if cached \<noteq> JNull then (Inr cached, s\<lparr>cacheService := c1\<rparr>)
         else (case db_findOne db table conds (store s) of
                 Inl e \<Rightarrow> (Inl e, s\<lparr>cacheService := c1, db_calls := db_calls s + 1\<rparr>)
               | Inr result \<Rightarrow>
                   (Inr result,
                    s\<lparr>cacheService := cache_set cacheKey result (table_ttl table) now' c1,
                      db_calls := db_calls s + 1\<rparr>)))"

definition cached_count ::
  "'d db \<Rightarrow> string \<Rightarrow> jsval \<Rightarrow> int \<Rightarrow> int \<Rightarrow> 'd cached_db \<Rightarrow> (error + jsval) \<times> 'd cached_db" where
  "cached_count db table conditions now now' s =
     (let conds = default_arg (JObj []) conditions;
          cacheKey = generateKey [JStr ''count'', JStr table, conds];
          (cached, c1) = cache_get cacheKey now (cacheService s)
      in if cached \<noteq> JNull then (Inr cached, s\<lparr>cacheService := c1\<rparr>)
         else (Inl (TypeError ''db.count is not a function''), s\<lparr>cacheService := c1\<rparr>))"

definition invalidateTable :: "string \<Rightarrow> cache_service \<Rightarrow> cache_service" where
  "invalidateTable table c = snd (invalidatePattern ('':'' @ table @ '':'') c)"

text \<open>
  The writes: the database first, then the invalidation, then the result.  An error of
  the database propagates before \<open>invalidateTable\<close> is reached.
\<close>

definition write_through ::
  "string \<Rightarrow> error + (jsval \<times> 'd) \<Rightarrow> 'd cached_db \<Rightarrow> (error + jsval) \<times> 'd cached_db" where
  "write_through table outcome s =
     (case outcome of
        Inl e \<Rightarrow> (Inl e, s\<lparr>db_calls := db_calls s + 1\<rparr>)
      | Inr (result, d') \<Rightarrow>
          (Inr result,
           s\<lparr>cacheService := invalidateTable table (cacheService s), store := d',
             db_calls := db_calls s + 1\<rparr>))"

definition cached_create ::
  "'d db \<Rightarrow> string \<Rightarrow> jsval \<Rightarrow> 'd cached_db \<Rightarrow> (error + jsval) \<times> 'd cached_db" where
  "cached_create db table data s = (Inl (TypeError ''db.create is not a function''), s)"

text \<open>
  \<open>update(table, conditions, data)\<close> hands its arguments over in the order received;
  \<open>Database.update\<close> names them \<open>(table, data, conditions)\<close>.
\<close>

definition cached_update ::
  "'d db \<Rightarrow> string \<Rightarrow> jsval \<Rightarrow> jsval \<Rightarrow> 'd cached_db \<Rightarrow> (error + jsval) \<times> 'd cached_db" where
  "cached_update db table conditions data s =
     write_through table (db_update db table conditions data (store s)) s"

definition cached_upsert ::
  "'d db \<Rightarrow> string \<Rightarrow> jsval \<Rightarrow> jsval \<Rightarrow> 'd cached_db \<Rightarrow> (error + jsval) \<times> 'd cached_db" where
  "cached_upsert db table data conflictColumns s =
     write_through table (db_upsert db table data conflictColumns (store s)) s"

definition cached_delete ::
  "'d db \<Rightarrow> string \<Rightarrow> jsval \<Rightarrow> 'd cached_db \<Rightarrow> (error + jsval) \<times> 'd cached_db" where
  "cached_delete db table conditions s =
     write_through table (db_delete db table conditions (store s)) s"

definition cached_batchUpsert ::
  "'d db \<Rightarrow> string \<Rightarrow> jsval \<Rightarrow> jsval \<Rightarrow> 'd cached_db \<Rightarrow> (error + jsval) \<times> 'd cached_db" where
  "cached_batchUpsert db table dataArray conflictColumns s =
     (Inl (TypeError ''db.batchUpsert is not a function''), s)"

text \<open>The write methods of the service, as one call.\<close>

datatype write_call =
    Create string jsval
  | Update string jsval jsval
  | Upsert string jsval jsval
  | DeleteRows string jsval
  | BatchUpsert string jsval jsval

fun written_table :: "write_call \<Rightarrow> string" where
  "written_table (Create table data) = table"
| "written_table (Update table conditions data) = table"
| "written_table (Upsert table data conflictColumns) = table"
| "written_table (DeleteRows table conditions) = table"
| "written_table (BatchUpsert table dataArray conflictColumns) = table"

fun cached_write :: "'d db \<Rightarrow> write_call \<Rightarrow> 'd cached_db \<Rightarrow> (error + jsval) \<times> 'd cached_db" where
  "cached_write db (Create table data) s = cached_create db table data s"
| "cached_write db (Update table conditions data) s = cached_update db table conditions data s"
| "cached_write db (Upsert table data conflictColumns) s = cached_upsert db table data conflictColumns s"
| "cached_write db (DeleteRows table conditions) s = cached_delete db table conditions s"
| "cached_write db (BatchUpsert table dataArray conflictColumns) s =
     cached_batchUpsert db table dataArray conflictColumns s"

text \<open>
  A database without rows, for the examples: lookups find nothing, writes succeed and
  return what they were given.
\<close>

definition empty_db :: "unit db" where
  "empty_db =
     \<lparr>db_findOne = (\<lambda>table conditions d. Inr JNull),
      db_findMany = (\<lambda>table conditions orderBy d. Inr (JArr [])),
      db_upsert = (\<lambda>table data conflictColumns d. Inr (data, d)),
      db_update = (\<lambda>table data conditions d. Inr (JUndefined, d)),
      db_delete = (\<lambda>table conditions d. Inr (JArr [], d))\<rparr>"

definition new_cached_db :: "'d \<Rightarrow> 'd cached_db" where
  "new_cached_db d = \<lparr>cacheService = new_cache, store = d, db_calls = 0\<rparr>"

section \<open>ImageService: downloading and caching images\<close>

text \<open>
  The service acts on the file system and on the network.  A file is known by its size
  and by whether \<open>sharp\<close> can decode it.  \<open>requests\<close> logs the URL of every
  \<open>fetch\<close> issued.
\<close>

record image_file =
  file_size :: nat
  decodes :: bool

record world =
  files :: "string \<Rightarrow> image_file option"
  dirs :: "string list"
  requests :: "string list"

record response =
  ok :: bool
  status :: nat
  statusText :: string
  content_type :: "string option"
  body_size :: nat
  body_decodes :: bool

text \<open>
  What lies outside the process: the outcome of a \<open>fetch\<close> of a URL with given
  headers (a rejection, or a response), the directories that \<open>fs.mkdir\<close> cannot
  create, and the configured user agent.
\<close>

record environment =
  fetch :: "string \<Rightarrow> (string \<times> string) list \<Rightarrow> error + response"
  mkdir_fails :: "string \<Rightarrow> bool"
  userAgent :: string

text \<open>\<open>path.join\<close> of a directory and one plain segment.\<close>

definition path_join :: "string \<Rightarrow> string \<Rightarrow> string" where
  "path_join dir segment = dir @ ''/'' @ segment"

definition baseImagePath :: string where
  "baseImagePath = ''public/images''"

definition recordsPath :: string where
  "recordsPath = path_join baseImagePath ''records''"

definition boardGamesPath :: string where
  "boardGamesPath = path_join baseImagePath ''board-games''"

definition booksPath :: string where
  "booksPath = path_join baseImagePath ''books''"

text \<open>
  \<open>validateExistingImage\<close>: \<open>fs.stat\<close> raises for a missing file and
  \<open>sharp(filePath).metadata()\<close> for one that does not decode; both are caught.
\<close>

definition validateExistingImage :: "string \<Rightarrow> world \<Rightarrow> bool" where
  "validateExistingImage filePath w =
     (case files w filePath of
        None \<Rightarrow> False
      | Some f \<Rightarrow> if file_size f = 0 then False else decodes f)"

definition ensureDirectoryExists :: "environment \<Rightarrow> string \<Rightarrow> world \<Rightarrow> error + world" where
  "ensureDirectoryExists env directoryPath w =
     (if directoryPath \<in> set (dirs w) then Inr w
      else if mkdir_fails env directoryPath then Inl (Error ''mkdir failed'')
      else Inr (w\<lparr>dirs := directoryPath # dirs w\<rparr>))"

text \<open>\<open>contentType && contentType.includes('text/html')\<close>\<close>

definition declares_html :: "response \<Rightarrow> bool" where
  "declares_html r =
     (case content_type r of None \<Rightarrow> False | Some ct \<Rightarrow> ct \<noteq> [] \<and> str_includes ct ''text/html'')"

text \<open>\<open>{ 'User-Agent': this.userAgent, ...customHeaders }\<close>\<close>

definition request_headers :: "environment \<Rightarrow> (string \<times> string) list \<Rightarrow> (string \<times> string) list" where
  "request_headers env customHeaders =
     fold (\<lambda>h. AList.update (fst h) (snd h)) customHeaders [(''User-Agent'', userAgent env)]"

text \<open>
  The body of the \<open>try\<close> block of \<open>downloadImage\<close>.  A body that \<open>sharp\<close> cannot
  decode makes \<open>toFile\<close> raise before anything is written; a decoded body is written
  as a JPEG file, which is not empty and decodes.
\<close>

definition download_attempt ::
  "environment \<Rightarrow> string \<Rightarrow> string \<Rightarrow> string \<Rightarrow> (string \<times> string) list \<Rightarrow>
   (response \<Rightarrow> string \<Rightarrow> error option) option \<Rightarrow> world \<Rightarrow> (error + string) \<times> world" where
  "download_attempt env url destinationDirectoryPath destinationFilename customHeaders rateLimiter w =
     (let headers = request_headers env customHeaders;
          w1 = w\<lparr>requests := requests w @ [url]\<rparr>
      in case fetch env url headers of
           Inl e \<Rightarrow> (Inl e, w1)
         | Inr resp \<Rightarrow>
             (case (case rateLimiter of None \<Rightarrow> None | Some limit \<Rightarrow> limit resp url) of
                Some e \<Rightarrow> (Inl e, w1)
              | None \<Rightarrow>
                  if \<not> ok resp
                    then (Inl (Error (''HTTP '' @ nat_to_string (status resp) @ '': '' @ statusText resp)), w1)
                  else if declares_html resp
                    then (Inl (Error ''Unexpected server response, got HTML document instead of image''), w1)
                  else (case ensureDirectoryExists env destinationDirectoryPath w1 of
                          Inl e \<Rightarrow> (Inl e, w1)
                        | Inr w2 \<Rightarrow>
                            let filepath = path_join destinationDirectoryPath destinationFilename
                            in if \<not> body_decodes resp
                                 then (Inl (Error ''Input buffer contains unsupported image format''), w2)
                               else (Inr filepath,
                                     w2\<lparr>files := (files w2)
                                           (filepath \<mapsto> \<lparr>file_size = Suc (body_size resp), decodes = True\<rparr>)\<rparr>))))"

text \<open>
  \<open>downloadImage\<close>: the URL test, then the \<open>try\<close> block, whose every error is logged
  and turned into \<open>null\<close>.  The result is \<open>Inr\<close> in every branch: nothing is raised.
\<close>

definition downloadImage ::
  "environment \<Rightarrow> string option \<Rightarrow> string \<Rightarrow> string \<Rightarrow> (string \<times> string) list \<Rightarrow>
   (response \<Rightarrow> string \<Rightarrow> error option) option \<Rightarrow> world \<Rightarrow> (error + string option) \<times> world" where
  "downloadImage env url destinationDirectoryPath destinationFilename customHeaders rateLimiter w =
     (case url of
        None \<Rightarrow> (Inr None, w)
      | Some u \<Rightarrow>
          if u = [] \<or> \<not> prefix ''http'' u then (Inr None, w)
          else (case download_attempt env u destinationDirectoryPath destinationFilename
                       customHeaders rateLimiter w of
                  (Inl e, w') \<Rightarrow> (Inr None, w')
                | (Inr filepath, w') \<Rightarrow> (Inr (Some filepath), w')))"

text \<open>\<open>!imageUrl\<close>\<close>

definition no_url :: "string option \<Rightarrow> bool" where
  "no_url imageUrl = (case imageUrl of None \<Rightarrow> True | Some u \<Rightarrow> u = [])"

definition downloadRecordImage ::
  "environment \<Rightarrow> string \<Rightarrow> string option \<Rightarrow> string option \<Rightarrow> string \<Rightarrow> world \<Rightarrow>
   (error + string option) \<times> world" where
  "downloadRecordImage env recordId imageUrl token imageType w =
     (if no_url imageUrl then (Inr None, w)
      else
        let recordDir = path_join recordsPath (''record'' @ recordId);
            filename = (if imageType = ''discogs'' then ''discogs-album-art.jpg''
                        else ''itunes-album-art.jpg'');
            fullPath = path_join recordDir filename
        in if validateExistingImage fullPath w
             then (Inr (Some (''/images/records/record'' @ recordId @ ''/'' @ filename)), w)
           else
             let headers = (case token of
                              None \<Rightarrow> []
                            | Some tk \<Rightarrow> if tk = [] then []
                                         else [(''Authorization'', ''Discogs token='' @ tk)])
             in (case downloadImage env imageUrl recordDir filename headers None w of
                   (Inr (Some filepath), w') \<Rightarrow>
                     (Inr (Some (''/images/records/record'' @ recordId @ ''/'' @ filename)), w')
                 | (r, w') \<Rightarrow> (Inr None, w')))"

definition downloadBoardGameImage ::
  "environment \<Rightarrow> string \<Rightarrow> string option \<Rightarrow> world \<Rightarrow> (error + string option) \<times> world" where
  "downloadBoardGameImage env gameId imageUrl w =
     (if no_url imageUrl then (Inr None, w)
      else
        let gameDir = path_join boardGamesPath (''boardgame'' @ gameId);
            filename = ''board-game-cover-art.jpg''
        in (case downloadImage env imageUrl gameDir filename [] None w of
              (Inr (Some filepath), w') \<Rightarrow>
                (Inr (Some (''/images/board-games/boardgame'' @ gameId @ ''/'' @ filename)), w')
            | (r, w') \<Rightarrow> (Inr None, w')))"

definition downloadBookImage ::
  "environment \<Rightarrow> string \<Rightarrow> string option \<Rightarrow> world \<Rightarrow> (error + string option) \<times> world" where
  "downloadBookImage env bookId imageUrl w =
     (if no_url imageUrl then (Inr None, w)
      else
        let bookDir = path_join booksPath (''book'' @ bookId);
            filename = ''book-cover-art.jpg''
        in (case downloadImage env imageUrl bookDir filename [] None w of
              (Inr (Some filepath), w') \<Rightarrow>
                (Inr (Some (''/images/books/book'' @ bookId @ ''/'' @ filename)), w')
            | (r, w') \<Rightarrow> (Inr None, w')))"

text \<open>
  For the examples: a server that answers every request with a JPEG image, one that
  answers with an HTML error page under status 200, and a file system that holds one
  valid cover image of board game 13.
\<close>

definition image_server :: environment where
  "image_server =
     \<lparr>fetch = (\<lambda>url headers. Inr \<lparr>ok = True, status = 200, statusText = ''OK'',
                                     content_type = Some ''image/jpeg'', body_size = 2048,
                                     body_decodes = True\<rparr>),
      mkdir_fails = (\<lambda>dir. False),
      userAgent = ''Shelf/2.0''\<rparr>"

definition html_server :: environment where
  "html_server =
     \<lparr>fetch = (\<lambda>url headers. Inr \<lparr>ok = True, status = 200, statusText = ''OK'',
                                     content_type = Some ''text/html; charset=utf-8'',
                                     body_size = 512, body_decodes = False\<rparr>),
      mkdir_fails = (\<lambda>dir. False),
      userAgent = ''Shelf/2.0''\<rparr>"

definition world_with_cover :: world where
  "world_with_cover =
     \<lparr>files = [''public/images/board-games/boardgame13/board-game-cover-art.jpg''
                  \<mapsto> \<lparr>file_size = 4096, decodes = True\<rparr>],
      dirs = [''public/images/board-games/boardgame13''],
      requests = []\<rparr>"

section \<open>SyncService: the re-entrancy guard\<close>

text \<open>
  An \<open>async\<close> method runs without interruption up to its first \<open>await\<close> and resumes
  when the awaited promise settles.  A trigger is therefore two atomic steps: its entry
  (the test of \<open>isRunning\<close>, and setting it) and, for a trigger that entered, its exit
  when the pass it awaits has settled (the \<open>finally\<close> block).  \<open>in_flight\<close> and the
  two counters are ghost state: the trigger whose pass is running, and how many passes
  were started and have run to their end.
\<close>

datatype trigger = PeriodicTick | ManualRecords | ManualBoardGames

datatype trigger_result =
    Entered
  | Skipped
  | Rejected error
  | Finished
  | Raised error
  | Idle

record sync_service =
  isRunning :: bool
  in_flight :: "trigger option"
  passes_started :: nat
  passes_finished :: nat

definition new_sync_service :: sync_service where
  "new_sync_service = \<lparr>isRunning = False, in_flight = None, passes_started = 0, passes_finished = 0\<rparr>"

text \<open>\<open>performSync\<close> up to \<open>await Promise.allSettled(syncPromises)\<close>.\<close>

definition performSync_enter :: "sync_service \<Rightarrow> trigger_result \<times> sync_service" where
  "performSync_enter s =
     (if isRunning s then (Skipped, s)
      else (Entered, s\<lparr>isRunning := True, in_flight := Some PeriodicTick,
                       passes_started := passes_started s + 1\<rparr>))"

text \<open>The callback of \<open>setInterval\<close>: \<open>if (!this.isRunning) await this.performSync()\<close>.\<close>

definition periodic_tick :: "sync_service \<Rightarrow> trigger_result \<times> sync_service" where
  "periodic_tick s = (if \<not> isRunning s then performSync_enter s else (Skipped, s))"

text \<open>\<open>syncRecordsManually\<close> and \<open>syncBoardGamesManually\<close> up to their \<open>await\<close>.\<close>

definition manual_enter :: "trigger \<Rightarrow> sync_service \<Rightarrow> trigger_result \<times> sync_service" where
  "manual_enter t s =
     (if isRunning s then (Rejected (Error ''Sync already in progress''), s)
      else (Entered, s\<lparr>isRunning := True, in_flight := Some t,
                       passes_started := passes_started s + 1\<rparr>))"

text \<open>
  The pass in flight settles, with the error it raised if any.  \<open>performSync\<close> waits
  with \<open>Promise.allSettled\<close>, which never rejects; a manual trigger lets the error
  pass.  Either way the \<open>finally\<close> block clears \<open>isRunning\<close>.
\<close>

definition pass_settles :: "error option \<Rightarrow> sync_service \<Rightarrow> trigger_result \<times> sync_service" where
  "pass_settles failure s =
     (case in_flight s of
        None \<Rightarrow> (Idle, s)
      | Some t \<Rightarrow>
          (case failure of
             None \<Rightarrow> Finished
           | Some e \<Rightarrow> if t = PeriodicTick then Finished else Raised e,
           s\<lparr>isRunning := False, in_flight := None, passes_finished := passes_finished s + 1\<rparr>))"

datatype sync_event = Trigger trigger | Settles "error option"

fun sync_step :: "sync_event \<Rightarrow> sync_service \<Rightarrow> trigger_result \<times> sync_service" where
  "sync_step (Trigger PeriodicTick) s = periodic_tick s"
| "sync_step (Trigger ManualRecords) s = manual_enter ManualRecords s"
| "sync_step (Trigger ManualBoardGames) s = manual_enter ManualBoardGames s"
| "sync_step (Settles failure) s = pass_settles failure s"

text \<open>The results and the final state of a sequence of events.\<close>

fun sync_run :: "sync_event list \<Rightarrow> sync_service \<Rightarrow> trigger_result list \<times> sync_service" where
  "sync_run [] s = ([], s)"
| "sync_run (e # es) s =
     (let (r, s1) = sync_step e s; (rs, s2) = sync_run es s1 in (r # rs, s2))"

section \<open>Database: the helper methods and their SQL\<close>

text \<open>
  A table is its list of rows, a row the list of its columns that have been given a
  value; a column without a value reads as \<open>NULL\<close>.  The constraints and defaults are
  those of \<open>schema.sql\<close>.  The serial \<open>id\<close> and the columns \<open>created_at\<close> and
  \<open>updated_at\<close>, which no method of the services reads, are left out, as are the
  length limits of the text columns.
\<close>

type_synonym row = "(string \<times> jsval) list"

type_synonym database = "(string \<times> row list) list"

text \<open>A query parameter that is \<open>undefined\<close> is sent as \<open>NULL\<close>.\<close>

definition sql_param :: "jsval \<Rightarrow> jsval" where
  "sql_param v = (if v = JUndefined then JNull else v)"

definition column :: "row \<Rightarrow> string \<Rightarrow> jsval" where
  "column r c = (case map_of r c of None \<Rightarrow> JNull | Some v \<Rightarrow> v)"





text \<open>\<open>WHERE k1 = $1 AND k2 = $2 ...\<close>: a comparison with \<open>NULL\<close> is never true.\<close>

definition satisfies :: "row \<Rightarrow> row \<Rightarrow> bool" where
  "satisfies conditions r =
     list_all (\<lambda>c. sql_param (snd c) \<noteq> JNull \<and> column r (fst c) = sql_param (snd c)) conditions"


text \<open>\<open>SELECT * FROM table WHERE ... LIMIT 1\<close>, then \<open>result.rows[0] || null\<close>.\<close>

definition Database_findOne :: "string \<Rightarrow> row \<Rightarrow> database \<Rightarrow> error + jsval" where
  "Database_findOne table conditions db =
     (case map_of db table of
        None \<Rightarrow> Inl (Error ''relation does not exist'')
      | Some rows \<Rightarrow>
          Inr (case filter (satisfies conditions) rows of [] \<Rightarrow> JNull | r # rs \<Rightarrow> JObj r))"





section \<open>DiscogsService: from API items to rows\<close>

















section \<open>BoardGameGeekService: from API items to rows\<close>














section \<open>SyncService: the sync passes\<close>





















section \<open>Properties of the cache\<close>

lemma cache_delete_keys:
  "key \<notin> fst ` set (cache (cache_delete key c))" "key \<notin> fst ` set (ttls (cache_delete key c))"
  by (simp_all add: cache_delete_def delete_notin_dom)

text \<open>
  C8.  A key whose expiry time has passed at the time of the read: \<open>get\<close> returns
  \<open>null\<close> and \<open>has\<close> returns \<open>false\<close>, and either call leaves the key in neither map
  of the cache.
\<close>

theorem expired_entry_is_absent_and_removed:
  assumes "map_of (ttls c) key = Some expiresAt" and "now > expiresAt"
  shows "fst (cache_get key now c) = JNull
       \<and> key \<notin> fst ` set (cache (snd (cache_get key now c)))
       \<and> key \<notin> fst ` set (ttls (snd (cache_get key now c)))
       \<and> fst (cache_has key now c) = False
       \<and> key \<notin> fst ` set (cache (snd (cache_has key now c)))
       \<and> key \<notin> fst ` set (ttls (snd (cache_has key now c)))"
  using assms by (simp add: cache_get_def cache_has_def cache_delete_keys)

theorem expired_entry_is_absent_and_removed_witness:
  "map_of (ttls (cache_set ''k'' (JNum 7) 1000 5000 new_cache)) ''k'' = Some 6000
   \<and> (6001::int) > 6000
   \<and> fst (cache_get ''k'' 6001 (cache_set ''k'' (JNum 7) 1000 5000 new_cache)) = JNull
   \<and> ''k'' \<notin> fst ` set (cache (snd (cache_get ''k'' 6001 (cache_set ''k'' (JNum 7) 1000 5000 new_cache))))
   \<and> fst (cache_has ''k'' 6001 (cache_set ''k'' (JNum 7) 1000 5000 new_cache)) = False"
proof -
  have h: "map_of (ttls (cache_set ''k'' (JNum 7) 1000 5000 new_cache)) ''k'' = Some 6000"
    by (simp add: cache_set_def new_cache_def maxCacheSize_def)
  show ?thesis
    using h expired_entry_is_absent_and_removed [OF h, of 6001] by simp
qed


lemma cache_inv_delete: "cache_inv c \<Longrightarrow> cache_inv (cache_delete key c)"
  by (simp add: cache_inv_def cache_delete_def delete_keys distinct_removeAll)

lemma length_delete_le2: "length (cache (cache_delete key c)) \<le> length (cache c)"
  by (simp add: cache_delete_def length_delete_le)

lemma fold_delete_cache:
  "cache (fold (\<lambda>entry. cache_delete (fst entry)) es c) = filter (\<lambda>p. fst p \<notin> fst ` set es) (cache c)"
  by (induction es arbitrary: c) (auto simp: cache_delete_def AList.delete_eq intro!: filter_cong)

lemma fold_delete_inv:
  "cache_inv c \<Longrightarrow> cache_inv (fold (\<lambda>entry. cache_delete (fst entry)) es c)"
  by (induction es arbitrary: c) (auto simp: cache_inv_delete)

lemma length_filter_keys:
  assumes "distinct (map fst xs)" and "K \<subseteq> fst ` set xs"
  shows "length (filter (\<lambda>p. fst p \<notin> K) xs) = length xs - card K"
proof -
  have "map fst (filter (\<lambda>p. fst p \<in> K) xs) = filter (\<lambda>k. k \<in> K) (map fst xs)"
    by (simp add: filter_map comp_def)
  moreover have "distinct (filter (\<lambda>k. k \<in> K) (map fst xs))"
    using assms(1) by simp
  moreover have "set (filter (\<lambda>k. k \<in> K) (map fst xs)) = K"
    using assms(2) by auto
  ultimately have "length (filter (\<lambda>p. fst p \<in> K) xs) = card K"
    by (metis distinct_card length_map)
  moreover have "length (filter (\<lambda>p. fst p \<in> K) xs) + length (filter (\<lambda>p. fst p \<notin> K) xs) = length xs"
    using sum_length_filter_compl [of "\<lambda>p. fst p \<in> K" xs] by simp
  ultimately show ?thesis by simp
qed

lemma card_take_sorted_keys:
  assumes "distinct (map fst xs)"
  shows "card (fst ` set (take n (sort_key snd xs))) = min n (length xs)"
proof -
  have "distinct (map fst (sort_key snd xs))"
    using assms by (simp add: distinct_map)
  then have "distinct (map fst (take n (sort_key snd xs)))"
    by (simp add: take_map [symmetric] distinct_take)
  then have "card (set (map fst (take n (sort_key snd xs)))) = length (map fst (take n (sort_key snd xs)))"
    by (rule distinct_card)
  then show ?thesis by (simp add: min.commute)
qed

lemma evictOldest_length:
  assumes "cache_inv c"
  shows "length (cache (evictOldest c)) = length (cache c) - (length (cache c) + 9) div 10"
proof -
  let ?n = "(length (cache c) + 9) div 10"
  let ?K = "fst ` set (take ?n (sort_key snd (ttls c)))"
  have len: "length (ttls c) = length (cache c)"
    using assms unfolding cache_inv_def by (metis length_map)
  have d: "distinct (map fst (cache c))"
    using assms by (simp add: cache_inv_def)
  have "?K \<subseteq> fst ` set (sort_key snd (ttls c))"
    by (meson image_mono set_take_subset)
  also have "\<dots> = fst ` set (cache c)"
    using assms unfolding cache_inv_def by (metis set_map set_sort)
  finally have sub: "?K \<subseteq> fst ` set (cache c)" .
  have "card ?K = min ?n (length (ttls c))"
    using assms by (simp add: card_take_sorted_keys cache_inv_def)
  also have "\<dots> = ?n" using len by simp
  finally have "card ?K = ?n" .
  then show ?thesis
    using length_filter_keys [OF d sub] by (simp add: evictOldest_def Let_def fold_delete_cache)
qed

lemma evictOldest_inv: "cache_inv c \<Longrightarrow> cache_inv (evictOldest c)"
  by (simp add: evictOldest_def Let_def fold_delete_inv)

lemma length_update_le: "length (AList.update k v al) \<le> Suc (length al)"
  by (induction al) auto

lemma update_both_inv:
  "cache_inv c \<Longrightarrow>
   cache_inv (c\<lparr>cache := AList.update key val (cache c), ttls := AList.update key e (ttls c)\<rparr>)"
  by (simp add: cache_inv_def update_keys)

lemma cache_set_inv: "cache_inv c \<Longrightarrow> cache_inv (cache_set key val ttl now c)"
  by (simp add: cache_set_def Let_def update_both_inv evictOldest_inv)

lemma cache_set_length:
  assumes "cache_inv c" and "length (cache c) \<le> maxCacheSize"
  shows "length (cache (cache_set key val ttl now c)) \<le> maxCacheSize"
proof (cases "length (cache c) \<ge> maxCacheSize")
  case True
  then have l: "length (cache c) = 1000" using assms(2) by (simp add: maxCacheSize_def)
  have "length (cache (evictOldest c)) = 900"
    using evictOldest_length [OF assms(1)] l by simp
  moreover have "length (cache (cache_set key val ttl now c)) \<le> Suc (length (cache (evictOldest c)))"
    using True by (simp add: cache_set_def Let_def length_update_le)
  ultimately show ?thesis by (simp add: maxCacheSize_def)
next
  case False
  then have "length (cache (cache_set key val ttl now c)) \<le> Suc (length (cache c))"
    by (simp add: cache_set_def Let_def length_update_le)
  with False show ?thesis by simp
qed


lemma invalidatePattern_inv: "cache_inv c \<Longrightarrow> cache_inv (snd (invalidatePattern pattern c))"
proof -
  have "cache_inv (snd acc) \<Longrightarrow>
        cache_inv (snd (fold (\<lambda>key (removed, c').
             if str_includes key pattern then (removed + 1, cache_delete key c') else (removed, c'))
          ks acc))" for ks and acc :: "nat \<times> cache_service"
    by (induction ks arbitrary: acc) (auto simp: cache_inv_delete split: prod.splits)
  then show "cache_inv c \<Longrightarrow> cache_inv (snd (invalidatePattern pattern c))"
    by (simp add: invalidatePattern_def)
qed

lemma invalidatePattern_length:
  "length (cache (snd (invalidatePattern pattern c))) \<le> length (cache c)"
proof -
  have "length (cache (snd (fold (\<lambda>key (removed, c').
             if str_includes key pattern then (removed + 1, cache_delete key c') else (removed, c'))
          ks acc))) \<le> length (cache (snd acc))" for ks and acc :: "nat \<times> cache_service"
  proof (induction ks arbitrary: acc)
    case Nil
    then show ?case by simp
  next
    case (Cons k ks)
    obtain r c' where acc: "acc = (r, c')" by (cases acc)
    show ?case
      using Cons [of "(r + 1, cache_delete k c')"] Cons [of "(r, c')"]
            length_delete_le2 [of k c']
      by (simp add: acc)
  qed
  from this [of "map fst (cache c)" "(0, c)"] show ?thesis
    by (simp add: invalidatePattern_def)
qed

lemma cleanup_inv: "cache_inv c \<Longrightarrow> cache_inv (cleanup now c)"
proof -
  have "cache_inv c' \<Longrightarrow>
        cache_inv (fold (\<lambda>entry c'. if now > snd entry then cache_delete (fst entry) c' else c') es c')"
    for es :: "(string \<times> int) list" and c'
    by (induction es arbitrary: c') (auto simp: cache_inv_delete)
  then show "cache_inv c \<Longrightarrow> cache_inv (cleanup now c)"
    by (simp add: cleanup_def)
qed

lemma cleanup_length: "length (cache (cleanup now c)) \<le> length (cache c)"
proof -
  have "length (cache (fold (\<lambda>entry c'. if now > snd entry then cache_delete (fst entry) c' else c') es c'))
        \<le> length (cache c')" for es :: "(string \<times> int) list" and c'
  proof (induction es arbitrary: c')
    case Nil
    then show ?case by simp
  next
    case (Cons e es)
    show ?case
      using Cons [of "cache_delete (fst e) c'"] Cons [of c'] length_delete_le2 [of "fst e" c']
      by simp
  qed
  then show ?thesis by (simp add: cleanup_def)
qed

lemma cache_get_state:
  "snd (cache_get key now c) = c \<or> snd (cache_get key now c) = cache_delete key c"
  by (simp add: cache_get_def split: option.splits)

lemma cache_has_state:
  "snd (cache_has key now c) = c \<or> snd (cache_has key now c) = cache_delete key c"
  by (simp add: cache_has_def split: option.splits)

lemma apply_op_inv: "cache_inv c \<Longrightarrow> cache_inv (apply_op x c)"
proof (cases x)
  case (Get key now)
  assume "cache_inv c"
  then show ?thesis
    using cache_get_state [of key now c] Get by (auto simp: cache_inv_delete)
next
  case (Has key now)
  assume "cache_inv c"
  then show ?thesis
    using cache_has_state [of key now c] Has by (auto simp: cache_inv_delete)
qed (simp_all add: cache_set_inv cache_inv_delete invalidatePattern_inv cleanup_inv,
     simp add: cache_clear_def cache_inv_def)

lemma apply_op_length:
  assumes "cache_inv c" and "length (cache c) \<le> maxCacheSize"
  shows "length (cache (apply_op x c)) \<le> maxCacheSize"
proof (cases x)
  case (Set key val ttl now)
  then show ?thesis using assms by (simp add: cache_set_length)
next
  case (Get key now)
  then show ?thesis
    using assms(2) cache_get_state [of key now c] length_delete_le2 [of key c] by auto
next
  case (Has key now)
  then show ?thesis
    using assms(2) cache_has_state [of key now c] length_delete_le2 [of key c] by auto
next
  case (Delete key)
  then show ?thesis using assms(2) length_delete_le2 [of key c] by simp
next
  case (InvalidatePattern pattern)
  then show ?thesis using assms(2) invalidatePattern_length [of pattern c] by simp
next
  case (Cleanup now)
  then show ?thesis using assms(2) cleanup_length [of now c] by simp
next
  case Clear
  then show ?thesis by (simp add: cache_clear_def)
qed

lemma fold_apply_op_inv:
  "cache_inv c \<Longrightarrow> length (cache c) \<le> maxCacheSize \<Longrightarrow>
   cache_inv (fold apply_op ops c) \<and> length (cache (fold apply_op ops c)) \<le> maxCacheSize"
  by (induction ops arbitrary: c) (simp_all add: apply_op_inv apply_op_length)

lemma run_ops_inv: "cache_inv (run_ops ops)"
  using fold_apply_op_inv [of new_cache ops]
  by (simp add: run_ops_def new_cache_def cache_inv_def)

lemma fold_delete_ttls:
  "ttls (fold (\<lambda>entry. cache_delete (fst entry)) es c) = filter (\<lambda>p. fst p \<notin> fst ` set es) (ttls c)"
  by (induction es arbitrary: c) (auto simp: cache_delete_def AList.delete_eq intro!: filter_cong)

lemma cache_set_stores:
  "map_of (cache (cache_set key val ttl now c)) key = Some val"
  "map_of (ttls (cache_set key val ttl now c)) key = Some (now + ttl)"
  by (simp_all add: cache_set_def Let_def update_conv')

lemma cache_set_at_capacity:
  assumes "length (cache c) = maxCacheSize"
  shows "cache (cache_set key val ttl now c)
         = AList.update key val
             (filter (\<lambda>e. fst e \<notin> fst ` set (take 100 (sort_key snd (ttls c)))) (cache c))"
    and "ttls (cache_set key val ttl now c)
         = AList.update key (now + ttl)
             (filter (\<lambda>e. fst e \<notin> fst ` set (take 100 (sort_key snd (ttls c)))) (ttls c))"
  using assms
  by (simp_all add: cache_set_def evictOldest_def Let_def fold_delete_cache fold_delete_ttls
                    maxCacheSize_def)

lemma cache_set_below_capacity:
  assumes "length (cache c) < maxCacheSize"
  shows "cache (cache_set key val ttl now c) = AList.update key val (cache c)"
    and "ttls (cache_set key val ttl now c) = AList.update key (now + ttl) (ttls c)"
  using assms by (simp_all add: cache_set_def Let_def)

lemma run_ops_length: "length (cache (run_ops ops)) \<le> maxCacheSize"
  using fold_apply_op_inv [of new_cache ops]
  by (simp add: run_ops_def new_cache_def cache_inv_def)

text \<open>
  C6.  After every sequence of calls on a fresh cache, sets included, the number of
  entries is at most \<open>maxCacheSize\<close> (1000).  A \<open>set\<close> always leaves the key mapped
  to the value, with expiry \<open>now + ttl\<close>.  On a cache that holds 1000 entries it first
  removes, from both maps, the keys of the first 100 entries of \<open>ttls\<close> in ascending
  order of expiry, and then stores the new entry; below 1000 entries it removes
  nothing.  In general \<open>evictOldest\<close> removes one tenth of the entries, rounded up.
\<close>

theorem cache_size_never_exceeds_ceiling:
  "length (cache (run_ops ops)) \<le> maxCacheSize
   \<and> map_of (cache (cache_set key val ttl now c)) key = Some val
   \<and> map_of (ttls (cache_set key val ttl now c)) key = Some (now + ttl)
   \<and> cache (cache_set key val ttl now (run_ops ops))
       = AList.update key val
           (if length (cache (run_ops ops)) = maxCacheSize
            then filter (\<lambda>e. fst e \<notin> fst ` set (take 100 (sort_key snd (ttls (run_ops ops)))))
                   (cache (run_ops ops))
            else cache (run_ops ops))
   \<and> ttls (cache_set key val ttl now (run_ops ops))
       = AList.update key (now + ttl)
           (if length (cache (run_ops ops)) = maxCacheSize
            then filter (\<lambda>e. fst e \<notin> fst ` set (take 100 (sort_key snd (ttls (run_ops ops)))))
                   (ttls (run_ops ops))
            else ttls (run_ops ops))
   \<and> sorted (map snd (sort_key snd (ttls (run_ops ops))))
   \<and> length (cache (evictOldest (run_ops ops)))
       = length (cache (run_ops ops)) - (length (cache (run_ops ops)) + 9) div 10"
proof (cases "length (cache (run_ops ops)) = maxCacheSize")
  case True
  then show ?thesis
    using run_ops_length [of ops] evictOldest_length [OF run_ops_inv, of ops]
          cache_set_at_capacity [OF True, of key val ttl now]
    by (simp add: cache_set_stores)
next
  case False
  then have "length (cache (run_ops ops)) < maxCacheSize"
    using run_ops_length [of ops] by simp
  then show ?thesis
    using False run_ops_length [of ops] evictOldest_length [OF run_ops_inv, of ops]
          cache_set_below_capacity [of "run_ops ops" key val ttl now]
    by (simp add: cache_set_stores)
qed
section \<open>Properties of the cache-aside layer\<close>

lemma invalidatePattern_fold_cache:
  "cache (snd (fold (\<lambda>key (removed, c').
             if str_includes key pattern then (removed + 1, cache_delete key c') else (removed, c'))
          ks acc))
   = filter (\<lambda>e. \<not> (fst e \<in> set ks \<and> str_includes (fst e) pattern)) (cache (snd acc))"
proof (induction ks arbitrary: acc)
  case Nil
  then show ?case by simp
next
  case (Cons k ks)
  obtain r c' where acc: "acc = (r, c')" by (cases acc)
  show ?case
  proof (cases "str_includes k pattern")
    case True
    then show ?thesis
      using Cons [of "(r + 1, cache_delete k c')"]
      by (auto simp: acc cache_delete_def AList.delete_eq intro!: filter_cong)
  next
    case False
    then show ?thesis
      using Cons [of "(r, c')"] by (auto simp: acc intro!: filter_cong)
  qed
qed

lemma invalidatePattern_cache:
  "cache (snd (invalidatePattern pattern c)) = filter (\<lambda>e. \<not> str_includes (fst e) pattern) (cache c)"
  unfolding invalidatePattern_def invalidatePattern_fold_cache
  by (auto intro!: filter_cong)

lemma invalidated_key_misses:
  assumes "cache_inv c" and "str_includes key pattern"
  shows "fst (cache_get key t (snd (invalidatePattern pattern c))) = JNull"
proof -
  let ?c = "snd (invalidatePattern pattern c)"
  have "key \<notin> fst ` set (cache ?c)"
    using assms(2) by (auto simp: invalidatePattern_cache)
  moreover have "map fst (cache ?c) = map fst (ttls ?c)"
    using invalidatePattern_inv [OF assms(1), of pattern] by (simp add: cache_inv_def)
  ultimately have "key \<notin> fst ` set (ttls ?c)"
    by (metis set_map)
  then have "map_of (ttls ?c) key = None"
    by (simp add: map_of_eq_None_iff)
  then show ?thesis by (simp add: cache_get_def)
qed

lemma generateKey_includes_table:
  "str_includes (generateKey (a # JStr table # b # rest)) ('':'' @ table @ '':'')"
proof -
  have "generateKey (a # JStr table # b # rest)
        = part_string a @ ('':'' @ table @ '':'') @ join '':'' (map part_string (b # rest))"
    by (simp add: generateKey_def part_string_def)
  then show ?thesis
    by (simp only: str_includes_def sublist_appendI)
qed

lemma write_through_returns:
  assumes "outcome = Inr (r, d')"
  shows "write_through table outcome s
         = (Inr r, s\<lparr>cacheService := invalidateTable table (cacheService s), store := d',
                     db_calls := db_calls s + 1\<rparr>)"
  using assms by (simp add: write_through_def)

lemma reads_after_invalidation:
  assumes "cache_inv c"
  shows "fst (cached_findMany db table conditions orderBy t t'
                (s\<lparr>cacheService := invalidateTable table c, store := d', db_calls := n\<rparr>))
           = db_findMany db table (default_arg (JObj []) conditions) (default_arg JNull orderBy) d'"
    and "fst (cached_findOne db table conditions t t'
                (s\<lparr>cacheService := invalidateTable table c, store := d', db_calls := n\<rparr>))
           = db_findOne db table (default_arg (JObj []) conditions) d'"
    and "fst (cached_count db table conditions t t'
                (s\<lparr>cacheService := invalidateTable table c, store := d', db_calls := n\<rparr>))
           = Inl (TypeError ''db.count is not a function'')"
proof -
  have miss: "fst (cache_get (generateKey (a # JStr table # b # rest)) t (invalidateTable table c)) = JNull"
    for a b rest
    unfolding invalidateTable_def
    by (rule invalidated_key_misses [OF assms generateKey_includes_table])
  show "fst (cached_findMany db table conditions orderBy t t'
                (s\<lparr>cacheService := invalidateTable table c, store := d', db_calls := n\<rparr>))
           = db_findMany db table (default_arg (JObj []) conditions) (default_arg JNull orderBy) d'"
    using miss [of "JStr ''findMany''" "default_arg (JObj []) conditions" "[default_arg JNull orderBy]"]
    by (auto simp: cached_findMany_def Let_def split: prod.splits sum.splits)
  show "fst (cached_findOne db table conditions t t'
                (s\<lparr>cacheService := invalidateTable table c, store := d', db_calls := n\<rparr>))
           = db_findOne db table (default_arg (JObj []) conditions) d'"
    using miss [of "JStr ''findOne''" "default_arg (JObj []) conditions" "[]"]
    by (auto simp: cached_findOne_def Let_def split: prod.splits sum.splits)
  show "fst (cached_count db table conditions t t'
                (s\<lparr>cacheService := invalidateTable table c, store := d', db_calls := n\<rparr>))
           = Inl (TypeError ''db.count is not a function'')"
    using miss [of "JStr ''count''" "default_arg (JObj []) conditions" "[]"]
    by (auto simp: cached_count_def Let_def split: prod.splits)
qed

text \<open>
  \<open>update\<close>, \<open>upsert\<close> and \<open>delete\<close>: when the call to the database succeeds, the
  write returns the database's result, the new state of the database is in place, no
  key of the cache contains \<open>:table:\<close> any more, and a read of the table issued next,
  at whatever time and with whatever conditions, is answered by the database as it is
  after the write (\<open>count\<close> reaches the missing \<open>db.count\<close>).
\<close>

lemma write_returns_with_keys_gone:
  assumes "cache_inv (cacheService s)"
      and "(w = Update table conditions data
              \<and> db_update db table conditions data (store s) = Inr (r, d'))
           \<or> (w = Upsert table data conflictColumns
              \<and> db_upsert db table data conflictColumns (store s) = Inr (r, d'))
           \<or> (w = DeleteRows table conditions
              \<and> db_delete db table conditions (store s) = Inr (r, d'))"
  shows "fst (cached_write db w s) = Inr r
       \<and> store (snd (cached_write db w s)) = d'
       \<and> filter (\<lambda>e. str_includes (fst e) ('':'' @ table @ '':''))
           (cache (cacheService (snd (cached_write db w s)))) = []
       \<and> fst (cached_findMany db table conds orderBy t t' (snd (cached_write db w s)))
           = db_findMany db table (default_arg (JObj []) conds) (default_arg JNull orderBy) d'
       \<and> fst (cached_findOne db table conds t t' (snd (cached_write db w s)))
           = db_findOne db table (default_arg (JObj []) conds) d'
       \<and> fst (cached_count db table conds t t' (snd (cached_write db w s)))
           = Inl (TypeError ''db.count is not a function'')"
proof -
  have w: "cached_write db w s
           = (Inr r, s\<lparr>cacheService := invalidateTable table (cacheService s), store := d',
                       db_calls := db_calls s + 1\<rparr>)"
    using assms(2)
    by (auto simp: cached_update_def cached_upsert_def cached_delete_def write_through_returns)
  have "filter (\<lambda>e. str_includes (fst e) ('':'' @ table @ '':''))
          (cache (invalidateTable table (cacheService s))) = []"
    by (simp add: invalidateTable_def invalidatePattern_cache)
  then show ?thesis
    using reads_after_invalidation
            [OF assms(1), where s = s and d' = d' and n = "db_calls s + 1" and db = db
               and table = table and t = t and t' = t']
    by (simp add: w)
qed

text \<open>
  C3.  \<open>create\<close> and \<open>batchUpsert\<close> are among the writes of the claim, but
  \<open>Database\<close> defines neither \<open>create\<close> nor \<open>batchUpsert\<close>: the call raises a
  \<open>TypeError\<close> before anything is written or invalidated.  With a result of
  \<open>findMany\<close> on \<open>records\<close> in the cache, creating a record or upserting a batch
  of records fails, whatever the database, and leaves the cache as it was; the next
  \<open>findMany\<close> is still answered from the cache.
\<close>

theorem create_and_batchUpsert_never_write:
  "cached_write db
     (Create ''records''
        (JObj [(''external_id'', JStr ''1''), (''artist'', JStr ''Miles Davis''),
               (''title'', JStr ''Kind Of Blue'')]))
     \<lparr>cacheService =
        cache_set (generateKey [JStr ''findMany'', JStr ''records'',
                                 JObj [(''in_collection'', JBool True)], JNull])
          (JArr []) 600000 1000 new_cache,
      store = d, db_calls = 0\<rparr>
   = (Inl (TypeError ''db.create is not a function''),
      \<lparr>cacheService =
        cache_set (generateKey [JStr ''findMany'', JStr ''records'',
                                 JObj [(''in_collection'', JBool True)], JNull])
          (JArr []) 600000 1000 new_cache,
      store = d, db_calls = 0\<rparr>)
   \<and> cached_write db
     (BatchUpsert ''records''
        (JArr [JObj [(''external_id'', JStr ''1''), (''artist'', JStr ''Miles Davis''),
                     (''title'', JStr ''Kind Of Blue'')]])
        (JArr [JStr ''external_id'']))
     \<lparr>cacheService =
        cache_set (generateKey [JStr ''findMany'', JStr ''records'',
                                 JObj [(''in_collection'', JBool True)], JNull])
          (JArr []) 600000 1000 new_cache,
      store = d, db_calls = 0\<rparr>
   = (Inl (TypeError ''db.batchUpsert is not a function''),
      \<lparr>cacheService =
        cache_set (generateKey [JStr ''findMany'', JStr ''records'',
                                 JObj [(''in_collection'', JBool True)], JNull])
          (JArr []) 600000 1000 new_cache,
      store = d, db_calls = 0\<rparr>)
   \<and> fst (cached_findMany db ''records'' (JObj [(''in_collection'', JBool True)]) JNull 2000 2001
      \<lparr>cacheService =
        cache_set (generateKey [JStr ''findMany'', JStr ''records'',
                                 JObj [(''in_collection'', JBool True)], JNull])
          (JArr []) 600000 1000 new_cache,
      store = d, db_calls = 0\<rparr>)
     = Inr (JArr [])
   \<and> db_calls (snd (cached_findMany db ''records'' (JObj [(''in_collection'', JBool True)]) JNull
      2000 2001
      \<lparr>cacheService =
        cache_set (generateKey [JStr ''findMany'', JStr ''records'',
                                 JObj [(''in_collection'', JBool True)], JNull])
          (JArr []) 600000 1000 new_cache,
      store = d, db_calls = 0\<rparr>))
     = 0"
  by (simp add: cached_create_def cached_batchUpsert_def cached_findMany_def Let_def
                default_arg_def cache_get_def cache_set_def new_cache_def maxCacheSize_def)

lemma hex_char_inj:
  assumes "a < 16" "b < 16" "hex_char a = hex_char b"
  shows "a = b"
  using assms
  by (auto simp: hex_char_def digit_char_def char_of_eq_iff take_bit_eq_mod split: if_splits)

lemma json_escape_first: "json_escape c \<noteq> [] \<and> hd (json_escape c) \<noteq> CHR 0x22"
  by (simp add: json_escape_def)

lemma of_char_div_mod:
  assumes "(of_char c :: nat) div 16 = of_char d div 16" "(of_char c :: nat) mod 16 = of_char d mod 16"
  shows "c = d"
proof -
  have "(of_char c :: nat) = of_char d"
    using assms by (metis div_mult_mod_eq)
  then show ?thesis by simp
qed

lemma json_escape_prefix_code:
  assumes "json_escape c @ X = json_escape d @ Y"
  shows "c = d"
proof -
  have h: "hex_char ((of_char c :: nat) div 16) = hex_char (of_char d div 16) \<Longrightarrow>
           hex_char ((of_char c :: nat) mod 16) = hex_char (of_char d mod 16) \<Longrightarrow> c = d"
  proof -
    assume 1: "hex_char ((of_char c :: nat) div 16) = hex_char (of_char d div 16)"
       and 2: "hex_char ((of_char c :: nat) mod 16) = hex_char (of_char d mod 16)"
    have b: "(of_char c :: nat) < 256" "(of_char d :: nat) < 256" by simp_all
    have "(of_char c :: nat) div 16 < 16" "(of_char d :: nat) div 16 < 16"
      using b by (simp_all add: div_less_iff_less_mult)
    then have "(of_char c :: nat) div 16 = of_char d div 16"
      by (rule hex_char_inj [OF _ _ 1])
    moreover have "(of_char c :: nat) mod 16 = of_char d mod 16"
      by (intro hex_char_inj [OF _ _ 2]) simp_all
    ultimately show "c = d" by (rule of_char_div_mod)
  qed
  show ?thesis
    using assms h
    by (auto simp: json_escape_def split: if_splits)
qed

lemma escaped_name_unique:
  "concat (map json_escape k1) @ CHR 0x22 # X = concat (map json_escape k2) @ CHR 0x22 # Y
   \<Longrightarrow> k1 = k2"
proof (induction k1 arbitrary: k2)
  case Nil
  show ?case
  proof (cases k2)
    case Nil
    then show ?thesis by simp
  next
    case (Cons d ds)
    then have "CHR 0x22 # X = json_escape d @ concat (map json_escape ds) @ CHR 0x22 # Y"
      using Nil.prems by simp
    then have "hd (json_escape d) = CHR 0x22"
      using json_escape_first [of d] by (cases "json_escape d") auto
    then show ?thesis using json_escape_first [of d] by simp
  qed
next
  case (Cons c cs)
  show ?case
  proof (cases k2)
    case Nil
    then have "json_escape c @ concat (map json_escape cs) @ CHR 0x22 # X = CHR 0x22 # Y"
      using Cons.prems by simp
    then have "hd (json_escape c) = CHR 0x22"
      using json_escape_first [of c] by (cases "json_escape c") auto
    then show ?thesis using json_escape_first [of c] by simp
  next
    case k2: (Cons d ds)
    have eq: "json_escape c @ (concat (map json_escape cs) @ CHR 0x22 # X)
              = json_escape d @ (concat (map json_escape ds) @ CHR 0x22 # Y)"
      using Cons.prems k2 by simp
    then have cd: "c = d" by (rule json_escape_prefix_code)
    then have "concat (map json_escape cs) @ CHR 0x22 # X = concat (map json_escape ds) @ CHR 0x22 # Y"
      using eq by simp
    then have "cs = ds" by (rule Cons.IH)
    with cd k2 show ?thesis by simp
  qed
qed

lemma json_quote_unique: "json_quote k1 @ X = json_quote k2 @ Y \<Longrightarrow> k1 = k2"
  using escaped_name_unique [of k1 X k2 Y] by (simp add: json_quote_def)

lemma join_Cons: "join sep (z # zs) = z @ (if zs = [] then [] else sep @ join sep zs)"
  by (cases zs) simp_all

lemma join_append_Cons:
  "join sep (xs @ y # ys) = (if xs = [] then [] else join sep xs @ sep) @ join sep (y # ys)"
  by (induction sep xs rule: join.induct) (simp_all add: join_Cons)

lemma stringify_props_append:
  "stringify_props (qs @ xs) = stringify_props qs @ stringify_props xs"
  by (induction qs) (simp_all split: option.splits)

lemma generateKey_swap:
  assumes "k1 \<noteq> k2" and "stringify v1 = Some s1" and "stringify v2 = Some s2"
  shows "generateKey (pre @ JObj (qs @ (k1, v1) # (k2, v2) # ps) # post)
       \<noteq> generateKey (pre @ JObj (qs @ (k2, v2) # (k1, v1) # ps) # post)"
proof
  let ?P = "if map part_string pre = [] then [] else join '':'' (map part_string pre) @ '':''"
  let ?Q = "if stringify_props qs = [] then [] else join '','' (stringify_props qs) @ '',''"
  let ?E = "''}'' @ (if map part_string post = [] then [] else '':'' @ join '':'' (map part_string post))"
  let ?T1 = "'':'' @ s1 @ '','' @ join '','' ((json_quote k2 @ '':'' @ s2) # stringify_props ps) @ ?E"
  let ?T2 = "'':'' @ s2 @ '','' @ join '','' ((json_quote k1 @ '':'' @ s1) # stringify_props ps) @ ?E"
  assume "generateKey (pre @ JObj (qs @ (k1, v1) # (k2, v2) # ps) # post)
        = generateKey (pre @ JObj (qs @ (k2, v2) # (k1, v1) # ps) # post)"
  then have "(?P @ ''{'' @ ?Q) @ (json_quote k1 @ ?T1) = (?P @ ''{'' @ ?Q) @ (json_quote k2 @ ?T2)"
    using assms(2,3)
    by (simp add: generateKey_def part_string_def join_append_Cons stringify_props_append join_Cons
             del: join.simps)
  then have "json_quote k1 @ ?T1 = json_quote k2 @ ?T2"
    by (simp only: same_append_eq)
  then have "k1 = k2" by (rule json_quote_unique)
  with assms(1) show False by simp
qed

lemma generateKey_form:
  "generateKey [JStr operation, JStr table, JObj ps]
   = operation @ '':'' @ table @ '':{'' @ join '','' (stringify_props ps) @ ''}''"
  by (simp add: generateKey_def part_string_def)

lemma stringify_defined: "v \<noteq> JUndefined \<Longrightarrow> \<exists>s. stringify v = Some s"
  by (cases v) simp_all

text \<open>
  C4 (as amended).  \<open>generateKey\<close> writes a condition object as \<open>JSON.stringify\<close>
  does, property by property in the object's own order: the key of an operation, a
  table and conditions is the three joined by colons, the conditions as the
  comma-separated list of their properties in braces.  Nothing is sorted: exchanging two
  neighbouring properties with different names and defined values, anywhere in the
  object and whatever the other parts of the key, gives a different key.
\<close>

theorem generateKey_follows_property_order:
  assumes "k1 \<noteq> k2" and "v1 \<noteq> JUndefined" and "v2 \<noteq> JUndefined"
  shows "generateKey [JStr operation, JStr table, JObj ps]
           = operation @ '':'' @ table @ '':{'' @ join '','' (stringify_props ps) @ ''}''
       \<and> generateKey (pre @ JObj (qs @ (k1, v1) # (k2, v2) # rs) # post)
           \<noteq> generateKey (pre @ JObj (qs @ (k2, v2) # (k1, v1) # rs) # post)"
proof -
  obtain s1 s2 where "stringify v1 = Some s1" "stringify v2 = Some s2"
    using assms(2,3) stringify_defined by blast
  then show ?thesis
    using generateKey_swap [OF assms(1)] generateKey_form by blast
qed

theorem generateKey_follows_property_order_witness:
  "''external_id'' \<noteq> ''in_wishlist'' \<and> JStr ''42'' \<noteq> JUndefined \<and> JBool True \<noteq> JUndefined
   \<and> generateKey ([JStr ''findOne'', JStr ''records'']
        @ JObj ([] @ (''external_id'', JStr ''42'') # (''in_wishlist'', JBool True) # []) # [])
     \<noteq> generateKey ([JStr ''findOne'', JStr ''records'']
        @ JObj ([] @ (''in_wishlist'', JBool True) # (''external_id'', JStr ''42'') # []) # [])"
proof -
  have h1: "''external_id'' \<noteq> ''in_wishlist''" by simp
  have h2: "JStr ''42'' \<noteq> JUndefined" and h3: "JBool True \<noteq> JUndefined" by simp_all
  show ?thesis
    using h1 h2 h3
      generateKey_follows_property_order [OF h1 h2 h3,
        of "''findOne''" "''records''" "[]" "[JStr ''findOne'', JStr ''records'']" "[]" "[]" "[]"]
    by blast
qed

text \<open>
  C4 as stated fails: the two objects below are equal as key-value maps and differ in
  the order of their properties, and their keys differ.
\<close>

theorem generateKey_property_order_counterexample:
  "map_of [(''in_collection'', JBool True), (''in_wishlist'', JBool False)]
   = map_of [(''in_wishlist'', JBool False), (''in_collection'', JBool True)]
   \<and> generateKey [JStr ''findMany'', JStr ''records'',
        JObj [(''in_collection'', JBool True), (''in_wishlist'', JBool False)], JNull]
     \<noteq> generateKey [JStr ''findMany'', JStr ''records'',
        JObj [(''in_wishlist'', JBool False), (''in_collection'', JBool True)], JNull]"
proof
  show "map_of [(''in_collection'', JBool True), (''in_wishlist'', JBool False)]
   = map_of [(''in_wishlist'', JBool False), (''in_collection'', JBool True)]"
    by (rule ext) simp
  show "generateKey [JStr ''findMany'', JStr ''records'',
        JObj [(''in_collection'', JBool True), (''in_wishlist'', JBool False)], JNull]
     \<noteq> generateKey [JStr ''findMany'', JStr ''records'',
        JObj [(''in_wishlist'', JBool False), (''in_collection'', JBool True)], JNull]"
    by (simp add: generateKey_def part_string_def json_quote_def json_escape_def)
qed

lemma stored_null_reads_null:
  "map_of (cache c) key = Some JNull \<Longrightarrow> fst (cache_get key t c) = JNull"
  by (simp add: cache_get_def split: option.splits)

lemma cache_get_after_set:
  "map_of (cache (cache_set key v ttl now c)) key = Some v"
  by (simp add: cache_set_def Let_def update_conv')

lemma findOne_null_calls_db:
  assumes "fst (cache_get (generateKey [JStr ''findOne'', JStr table, default_arg (JObj []) conditions]) t (cacheService s)) = JNull"
  shows "db_calls (snd (cached_findOne db table conditions t t' s)) = db_calls s + 1
       \<and> fst (cached_findOne db table conditions t t' s) = db_findOne db table (default_arg (JObj []) conditions) (store s)"
  using assms
  by (auto simp: cached_findOne_def Let_def split: prod.splits sum.splits)

lemma findOne_null_caches_null:
  assumes "fst (cache_get (generateKey [JStr ''findOne'', JStr table, default_arg (JObj []) conditions]) t (cacheService s)) = JNull"
      and "db_findOne db table (default_arg (JObj []) conditions) (store s) = Inr JNull"
  shows "map_of (cache (cacheService (snd (cached_findOne db table conditions t t' s))))
            (generateKey [JStr ''findOne'', JStr table, default_arg (JObj []) conditions]) = Some JNull
       \<and> store (snd (cached_findOne db table conditions t t' s)) = store s"
  using assms
  by (auto simp: cached_findOne_def Let_def cache_get_after_set split: prod.splits sum.splits)

lemma findMany_null_calls_db:
  assumes "fst (cache_get (generateKey [JStr ''findMany'', JStr table, default_arg (JObj []) conditions, default_arg JNull orderBy]) t (cacheService s)) = JNull"
  shows "fst (cached_findMany db table conditions orderBy t t' s)
         = db_findMany db table (default_arg (JObj []) conditions) (default_arg JNull orderBy) (store s)"
  using assms
  by (auto simp: cached_findMany_def Let_def split: prod.splits sum.splits)

lemma count_null_calls_db:
  assumes "fst (cache_get (generateKey [JStr ''count'', JStr table, default_arg (JObj []) conditions]) t (cacheService s)) = JNull"
  shows "fst (cached_count db table conditions t t' s) = Inl (TypeError ''db.count is not a function'')"
  using assms
  by (auto simp: cached_count_def Let_def split: prod.splits sum.splits)

text \<open>
  C10.  A \<open>findOne\<close> that misses the cache and finds no row returns \<open>null\<close> and stores
  that \<open>null\<close> under its key; every later \<open>findOne\<close> with the same arguments, at any
  time, calls the database again.  In general \<open>get\<close> answers \<open>null\<close> for a key whose
  stored value is \<open>null\<close>, and \<open>findMany\<close> and \<open>count\<close> treat such an entry as a
  miss too.
\<close>

theorem null_lookup_is_never_served_from_cache:
  assumes miss: "fst (cache_get (generateKey [JStr ''findOne'', JStr table, default_arg (JObj []) conditions]) now (cacheService s)) = JNull"
      and absent: "db_findOne db table (default_arg (JObj []) conditions) (store s) = Inr JNull"
  shows "fst (cached_findOne db table conditions now now' s) = Inr JNull
       \<and> map_of (cache (cacheService (snd (cached_findOne db table conditions now now' s))))
            (generateKey [JStr ''findOne'', JStr table, default_arg (JObj []) conditions]) = Some JNull
       \<and> db_calls (snd (cached_findOne db table conditions t t'
                          (snd (cached_findOne db table conditions now now' s))))
           = db_calls (snd (cached_findOne db table conditions now now' s)) + 1
       \<and> fst (cached_findOne db table conditions t t'
                 (snd (cached_findOne db table conditions now now' s))) = Inr JNull
       \<and> fst (cache_get key t (cache_set key JNull ttl t0 c)) = JNull
       \<and> fst (cached_findMany db table conditions orderBy t t'
                 (s\<lparr>cacheService :=
                      cache_set (generateKey [JStr ''findMany'', JStr table,
                                   default_arg (JObj []) conditions, default_arg JNull orderBy])
                        JNull ttl t0 (cacheService s)\<rparr>))
           = db_findMany db table (default_arg (JObj []) conditions) (default_arg JNull orderBy) (store s)
       \<and> fst (cached_count db table conditions t t'
                 (s\<lparr>cacheService :=
                      cache_set (generateKey [JStr ''count'', JStr table,
                                   default_arg (JObj []) conditions])
                        JNull ttl t0 (cacheService s)\<rparr>))
           = Inl (TypeError ''db.count is not a function'')"
proof -
  let ?k = "generateKey [JStr ''findOne'', JStr table, default_arg (JObj []) conditions]"
  let ?s1 = "snd (cached_findOne db table conditions now now' s)"
  have r1: "fst (cached_findOne db table conditions now now' s) = Inr JNull"
    using findOne_null_calls_db [OF miss, of db now'] absent by simp
  have st: "map_of (cache (cacheService ?s1)) ?k = Some JNull" "store ?s1 = store s"
    using findOne_null_caches_null [OF miss absent, of now'] by simp_all
  have miss2: "fst (cache_get ?k t (cacheService ?s1)) = JNull"
    using st(1) by (rule stored_null_reads_null)
  have r2: "db_calls (snd (cached_findOne db table conditions t t' ?s1)) = db_calls ?s1 + 1"
       "fst (cached_findOne db table conditions t t' ?s1) = Inr JNull"
    using findOne_null_calls_db [OF miss2, of db t'] absent st(2) by simp_all
  have g: "fst (cache_get k t (cache_set k JNull ttl t0 c')) = JNull" for k c'
    by (rule stored_null_reads_null [OF cache_get_after_set])
  have r3: "fst (cached_findMany db table conditions orderBy t t'
                 (s\<lparr>cacheService :=
                      cache_set (generateKey [JStr ''findMany'', JStr table,
                                   default_arg (JObj []) conditions, default_arg JNull orderBy])
                        JNull ttl t0 (cacheService s)\<rparr>))
           = db_findMany db table (default_arg (JObj []) conditions) (default_arg JNull orderBy) (store s)"
    using findMany_null_calls_db [where s = "s\<lparr>cacheService :=
                      cache_set (generateKey [JStr ''findMany'', JStr table,
                                   default_arg (JObj []) conditions, default_arg JNull orderBy])
                        JNull ttl t0 (cacheService s)\<rparr>" and db = db and t' = t'] g
    by simp
  have r4: "fst (cached_count db table conditions t t'
                 (s\<lparr>cacheService :=
                      cache_set (generateKey [JStr ''count'', JStr table,
                                   default_arg (JObj []) conditions])
                        JNull ttl t0 (cacheService s)\<rparr>))
           = Inl (TypeError ''db.count is not a function'')"
    using count_null_calls_db [where s = "s\<lparr>cacheService :=
                      cache_set (generateKey [JStr ''count'', JStr table,
                                   default_arg (JObj []) conditions])
                        JNull ttl t0 (cacheService s)\<rparr>" and db = db and t' = t'] g
    by simp
  show ?thesis
    using r1 st(1) r2 g r3 r4 by simp
qed

theorem null_lookup_is_never_served_from_cache_witness:
  "fst (cache_get (generateKey [JStr ''findOne'', JStr ''records'',
          default_arg (JObj []) (JObj [(''external_id'', JStr ''42'')])]) 10
        (cacheService (new_cached_db ()))) = JNull
   \<and> db_findOne empty_db ''records'' (default_arg (JObj []) (JObj [(''external_id'', JStr ''42'')]))
        (store (new_cached_db ())) = Inr JNull
   \<and> fst (cached_findOne empty_db ''records'' (JObj [(''external_id'', JStr ''42'')]) 10 11
            (new_cached_db ())) = Inr JNull
   \<and> db_calls (snd (cached_findOne empty_db ''records'' (JObj [(''external_id'', JStr ''42'')]) 20 21
                      (snd (cached_findOne empty_db ''records'' (JObj [(''external_id'', JStr ''42'')])
                              10 11 (new_cached_db ())))))
       = db_calls (snd (cached_findOne empty_db ''records'' (JObj [(''external_id'', JStr ''42'')])
                              10 11 (new_cached_db ()))) + 1"
proof -
  have h1: "fst (cache_get (generateKey [JStr ''findOne'', JStr ''records'',
          default_arg (JObj []) (JObj [(''external_id'', JStr ''42'')])]) 10
        (cacheService (new_cached_db ()))) = JNull"
    by (simp add: new_cached_db_def new_cache_def cache_get_def)
  have h2: "db_findOne empty_db ''records'' (default_arg (JObj []) (JObj [(''external_id'', JStr ''42'')]))
        (store (new_cached_db ())) = Inr JNull"
    by (simp add: empty_db_def)
  show ?thesis
    using h1 h2 null_lookup_is_never_served_from_cache [OF h1 h2, of 11 20 21]
    by simp
qed

section \<open>Properties of the image service\<close>

lemma download_attempt_rejected:
  assumes "fetch env url (request_headers env customHeaders) = Inr resp"
      and "\<not> ok resp \<or> declares_html resp"
  shows "\<exists>e. download_attempt env url dir filename customHeaders rateLimiter w
            = (Inl e, w\<lparr>requests := requests w @ [url]\<rparr>)"
  using assms by (auto simp: download_attempt_def Let_def split: option.splits)

text \<open>
  C9.  When the response to the download request is not successful, or declares a
  content type containing \<open>text/html\<close>, \<open>downloadImage\<close> returns \<open>null\<close> without
  raising, and the files and directories are as they were before the call.
\<close>

theorem html_or_failed_response_leaves_no_file:
  assumes "fetch env url (request_headers env customHeaders) = Inr resp"
      and "\<not> ok resp \<or> declares_html resp"
  shows "fst (downloadImage env (Some url) dir filename customHeaders rateLimiter w) = Inr None
       \<and> files (snd (downloadImage env (Some url) dir filename customHeaders rateLimiter w)) = files w
       \<and> dirs (snd (downloadImage env (Some url) dir filename customHeaders rateLimiter w)) = dirs w"
proof (cases "url = [] \<or> \<not> prefix ''http'' url")
  case True
  then show ?thesis by (auto simp: downloadImage_def)
next
  case False
  obtain e where "download_attempt env url dir filename customHeaders rateLimiter w
            = (Inl e, w\<lparr>requests := requests w @ [url]\<rparr>)"
    using download_attempt_rejected [OF assms] by blast
  with False show ?thesis by (simp add: downloadImage_def)
qed

theorem html_or_failed_response_leaves_no_file_witness:
  "fetch html_server ''https://cf.geekdo-images.com/pic14.jpg'' (request_headers html_server [])
     = Inr \<lparr>ok = True, status = 200, statusText = ''OK'',
            content_type = Some ''text/html; charset=utf-8'', body_size = 512,
            body_decodes = False\<rparr>
   \<and> declares_html \<lparr>ok = True, status = 200, statusText = ''OK'',
            content_type = Some ''text/html; charset=utf-8'', body_size = 512,
            body_decodes = False\<rparr>
   \<and> fst (downloadImage html_server (Some ''https://cf.geekdo-images.com/pic14.jpg'')
            ''public/images/board-games/boardgame14'' ''board-game-cover-art.jpg'' [] None
            world_with_cover) = Inr None
   \<and> files (snd (downloadImage html_server (Some ''https://cf.geekdo-images.com/pic14.jpg'')
            ''public/images/board-games/boardgame14'' ''board-game-cover-art.jpg'' [] None
            world_with_cover)) = files world_with_cover"
proof -
  have h1: "fetch html_server ''https://cf.geekdo-images.com/pic14.jpg'' (request_headers html_server [])
     = Inr \<lparr>ok = True, status = 200, statusText = ''OK'',
            content_type = Some ''text/html; charset=utf-8'', body_size = 512,
            body_decodes = False\<rparr>"
    by (simp add: html_server_def)
  have h2: "declares_html \<lparr>ok = True, status = 200, statusText = ''OK'',
            content_type = Some ''text/html; charset=utf-8'', body_size = 512,
            body_decodes = False\<rparr>"
    by code_simp
  show ?thesis
    using h1 h2
      html_or_failed_response_leaves_no_file [OF h1 disjI2 [OF h2],
        of "''public/images/board-games/boardgame14''" "''board-game-cover-art.jpg''" None
           world_with_cover]
    by simp
qed

text \<open>
  The lookup of an existing file in \<open>downloadRecordImage\<close>: with a URL given and a
  valid file at the target path, the web path is returned and nothing is requested.
\<close>

lemma record_image_served_from_disk:
  assumes "\<not> no_url imageUrl"
      and "validateExistingImage
             (path_join (path_join recordsPath (''record'' @ recordId))
                (if imageType = ''discogs'' then ''discogs-album-art.jpg'' else ''itunes-album-art.jpg''))
             w"
  shows "downloadRecordImage env recordId imageUrl token imageType w
         = (Inr (Some (''/images/records/record'' @ recordId @ ''/''
                        @ (if imageType = ''discogs'' then ''discogs-album-art.jpg''
                           else ''itunes-album-art.jpg''))), w)"
  using assms by (simp add: downloadRecordImage_def Let_def)

text \<open>
  C5.  The claim covers board games and books, but \<open>downloadBoardGameImage\<close> and
  \<open>downloadBookImage\<close> do not look for an existing file as \<open>downloadRecordImage\<close>
  does.  With a valid cover image of board game 13 on disk, acquiring it again issues
  a request for the URL.
\<close>

theorem board_game_image_is_fetched_again:
  "validateExistingImage ''public/images/board-games/boardgame13/board-game-cover-art.jpg''
     world_with_cover
   \<and> fst (downloadBoardGameImage image_server ''13'' (Some ''https://cf.geekdo-images.com/pic13.jpg'')
            world_with_cover)
       = Inr (Some ''/images/board-games/boardgame13/board-game-cover-art.jpg'')
   \<and> requests (snd (downloadBoardGameImage image_server ''13''
                       (Some ''https://cf.geekdo-images.com/pic13.jpg'') world_with_cover))
       = [''https://cf.geekdo-images.com/pic13.jpg'']"
  by code_simp

section \<open>Properties of the re-entrancy guard\<close>

text \<open>
  C7.  Two triggers of any kind issued back to back on an idle service, followed by
  the end of the pass that was started (with or without an error): the first trigger
  enters, the second is skipped if it is the periodic tick and rejected with an error
  if it is manual, exactly one pass was started and has finished, nothing is left in
  flight, and \<open>isRunning\<close> is false.
\<close>

theorem second_trigger_is_turned_away:
  "sync_run [Trigger t1, Trigger t2, Settles failure] new_sync_service
   = ([Entered,
       if t2 = PeriodicTick then Skipped else Rejected (Error ''Sync already in progress''),
       case failure of None \<Rightarrow> Finished
       | Some e \<Rightarrow> if t1 = PeriodicTick then Finished else Raised e],
      \<lparr>isRunning = False, in_flight = None, passes_started = 1, passes_finished = 1\<rparr>)"
  by (cases t1; cases t2; cases failure)
     (simp_all add: new_sync_service_def periodic_tick_def performSync_enter_def
                    manual_enter_def pass_settles_def)

section \<open>Properties of the sync passes\<close>





lemma satisfies_service [simp]:
  "satisfies [(''service'', JStr s)] r \<longleftrightarrow> column r ''service'' = JStr s"
  by (simp add: satisfies_def sql_param_def)






























































end
